theory Spec2Isabelle
  imports Complex_Main "HOL-Library.AList"
begin

section \<open>Python values and exceptions\<close>

text \<open>
  The client is a Python class over a Redis connection. Every exception the code can
  raise on the paths modelled here is a value of \<open>py_error\<close>; a function that can
  raise returns a sum with the error on the left.
\<close>

datatype py_error =
    TypeError
  | NameError string
  | IndexError
  | ValueError
  | KeyError string
  | ZeroDivisionError
  | ReservedNamespace
  | ResponseError
  | DataError

section \<open>Naming and validation\<close>

subsection \<open>The regular expression of \<open>is_valid_name\<close>\<close>

text \<open>
  \<^verbatim>\<open>re.compile(r'^[-a-zA-Z0-9_.:]{1,200}\.[json,HTML]+$', re.IGNORECASE)\<close>
  is a sequence of three quantified character sets. A character set is a list of single
  characters and ranges; \<open>\.\<close> is the set holding the dot alone. Strings are lists of
  8-bit characters, so the case folding of \<open>re.IGNORECASE\<close> is the ASCII one.
\<close>

datatype cset_item = Single char | Range char char

fun in_item :: "cset_item \<Rightarrow> char \<Rightarrow> bool" where
  "in_item (Single a) c = (c = a)"
| "in_item (Range lo hi) c = ((of_char lo :: nat) \<le> of_char c \<and> (of_char c :: nat) \<le> of_char hi)"

definition in_charset :: "cset_item list \<Rightarrow> char \<Rightarrow> bool" where
  "in_charset cs c = list_ex (\<lambda>i. in_item i c) cs"

definition ascii_lower :: "char \<Rightarrow> char" where
  "ascii_lower c = (let n = (of_char c :: nat) in if 65 \<le> n \<and> n \<le> 90 then char_of (n + 32) else c)"

definition ascii_upper :: "char \<Rightarrow> char" where
  "ascii_upper c = (let n = (of_char c :: nat) in if 97 \<le> n \<and> n \<le> 122 then char_of (n - 32) else c)"

text \<open>Under \<open>IGNORECASE\<close> a character is in a set when its lower or its upper case is.\<close>

definition class_ok :: "cset_item list \<Rightarrow> char \<Rightarrow> bool" where
  "class_ok cs c = (in_charset cs (ascii_lower c) \<or> in_charset cs (ascii_upper c))"

text \<open>A quantified set: the set, the least and the greatest number of repetitions
  (\<open>None\<close> for \<open>+\<close>, which has no upper bound).\<close>

type_synonym rx_item = "cset_item list \<times> nat \<times> nat option"

definition may_repeat :: "nat option \<Rightarrow> nat \<Rightarrow> bool" where
  "may_repeat hi k = (case hi of None \<Rightarrow> True | Some h \<Rightarrow> k < h)"

text \<open>\<open>$\<close> without \<open>MULTILINE\<close> matches at the end of the string and just before a
  newline that ends the string.\<close>

definition at_end :: "string \<Rightarrow> bool" where
  "at_end s = (s = [] \<or> s = [CHR 0x0A])"

text \<open>
  \<open>rmatch items k s\<close>: the pattern \<open>items\<close>, of whose first item \<open>k\<close> repetitions are
  already consumed, matches the whole of \<open>s\<close> (up to \<open>$\<close>). The backtracking matcher of
  Python finds a match exactly when one exists.
\<close>

fun rmatch :: "rx_item list \<Rightarrow> nat \<Rightarrow> string \<Rightarrow> bool" where
  "rmatch [] k s = at_end s"
| "rmatch ((cs, lo, hi) # its) k [] = (lo \<le> k \<and> rmatch its 0 [])"
| "rmatch ((cs, lo, hi) # its) k (c # s) =
     ((lo \<le> k \<and> rmatch its 0 (c # s)) \<or>
      (may_repeat hi k \<and> class_ok cs c \<and> rmatch ((cs, lo, hi) # its) (Suc k) s))"

definition stem_class :: "cset_item list" where
  "stem_class = [Single CHR ''-'', Range CHR ''a'' CHR ''z'', Range CHR ''A'' CHR ''Z'',
                 Range CHR ''0'' CHR ''9'', Single CHR ''_'', Single CHR ''.'', Single CHR '':'']"

definition suffix_class :: "cset_item list" where
  "suffix_class = [Single CHR ''j'', Single CHR ''s'', Single CHR ''o'', Single CHR ''n'',
                   Single CHR '','', Single CHR ''H'', Single CHR ''T'', Single CHR ''M'',
                   Single CHR ''L'']"

definition name_regex :: "rx_item list" where
  "name_regex = [(stem_class, 1, Some 200), ([Single CHR ''.''], 1, Some 1), (suffix_class, 1, None)]"

text \<open>Python's \<open>sub in s\<close> on strings.\<close>

fun py_in :: "string \<Rightarrow> string \<Rightarrow> bool" where
  "py_in sub [] = (sub = [])"
| "py_in sub (c # s) = (take (length sub) (c # s) = sub \<or> py_in sub s)"

definition is_valid_name :: "string \<Rightarrow> bool" where
  "is_valid_name name = (rmatch name_regex 0 name \<and> \<not> py_in ''::'' name)"


subsection \<open>Values and write keys\<close>

text \<open>
  Values are strings, as Redis stores them. \<^verbatim>\<open>sys.getsizeof\<close>, the random key generator
  of \<^verbatim>\<open>threezaconventions\<close>, the rounding of floating-point arithmetic and whether the
  connection offers streams belong to the interpreter and the libraries: they are the
  fields of the environment every function takes. \<open>DELAY_SECONDS\<close> is the instance's
  configuration.
\<close>

record env =
  DELAY_SECONDS :: "nat list"
  getsizeof :: "string \<Rightarrow> nat"
  rnd :: "rat \<Rightarrow> rat"
  random_key_at :: "nat \<Rightarrow> string"
  has_xadd :: bool

definition is_valid_value :: "env \<Rightarrow> string \<Rightarrow> bool" where
  "is_valid_value env v = (getsizeof env v < 100000)"

text \<open>\<^verbatim>\<open>len(str(uuid.uuid4()))\<close> is 36; a key of the model is a string already.\<close>

definition is_valid_key :: "string \<Rightarrow> bool" where
  "is_valid_key key = (length key = 36)"

section \<open>Cost-based expiry\<close>

text \<open>
  The float constants \<open>3.\<close>, \<open>10000.\<close>, \<open>60.*60.*24.\<close> and their products are integers that
  doubles hold exactly. Every other float operation rounds its exact result with \<open>rnd\<close>:
  the division that gives \<open>COST_PER_MONTH_1b\<close>, the conversion of the byte count, the two
  products of \<open>credits_per_month\<close>, and the divisions for the seconds and the days.
  A zero divisor raises, as in Python.
\<close>

definition cost_based_ttl :: "env \<Rightarrow> string \<Rightarrow> py_error + (int \<times> rat)" where
  "cost_based_ttl env v =
     (let REPLICATION = 3;
          DOLLAR = 10000;
          COST_PER_MONTH_10MB = 1 * DOLLAR;
          COST_PER_MONTH_1b = rnd env (COST_PER_MONTH_10MB / (10 * 1000 * 1000));
          SECONDS_PER_DAY = 60 * 60 * 24;
          SECONDS_PER_MONTH = SECONDS_PER_DAY * 30;
          FIXED_COST_bytes = 100;
          MAX_TTL_SECONDS = \<lfloor>SECONDS_PER_DAY * 7\<rfloor>;
          num_bytes = getsizeof env v;
          credits_per_month =
            rnd env (rnd env (REPLICATION * rnd env (of_nat (num_bytes + FIXED_COST_bytes)))
                     * COST_PER_MONTH_1b)
      in if credits_per_month = 0 then Inl ZeroDivisionError
         else
           let ttl_seconds = \<lceil>rnd env (SECONDS_PER_MONTH / credits_per_month)\<rceil>;
               ttl_seconds = min ttl_seconds MAX_TTL_SECONDS;
               ttl_days = rnd env (of_int ttl_seconds / SECONDS_PER_DAY)
           in Inr (ttl_seconds, ttl_days))"

text \<open>The divisor \<open>credits_per_month\<close> of \<open>cost_based_ttl\<close>, for the proofs.\<close>

definition credits :: "env \<Rightarrow> string \<Rightarrow> rat" where
  "credits env v =
     rnd env (rnd env (3 * rnd env (of_nat (getsizeof env v + 100))) * rnd env (1 / 1000))"

section \<open>The backing store\<close>

text \<open>
  Redis is outside the repository; the model keeps what the client relies on. One key
  space maps a key to a typed value and an optional expiry instant (in seconds, the
  unit of \<^verbatim>\<open>int(time.time())\<close>). A key is readable strictly before its expiry instant.
  A command on a key of the wrong type replies with an error and changes nothing.
\<close>

datatype rvalue =
    RStr string
  | RHash "(string \<times> string) list"
  | RSet "string list"
  | RStream "(string \<times> string) list list"

type_synonym entry = "rvalue \<times> int option"
type_synonym store = "string \<Rightarrow> entry option"

definition live_entry :: "int \<Rightarrow> store \<Rightarrow> string \<Rightarrow> entry option" where
  "live_entry t s k =
     (case s k of
        None \<Rightarrow> None
      | Some (v, e) \<Rightarrow>
          (case e of None \<Rightarrow> Some (v, e) | Some x \<Rightarrow> if t < x then Some (v, e) else None))"

datatype reply =
    RNil
  | RBulk string
  | RInt int
  | ROk
  | RArray "string option list"
  | RMembers "string list"
  | RError

datatype cmd =
    GET string
  | SET string string "int option"
  | MGET "string list"
  | MSET "(string \<times> string) list"
  | DEL "string list"
  | EXISTS "string list"
  | EXPIRE string int
  | HSET string string string
  | HEXISTS string string
  | HMGET string "string list"
  | HDEL string "string list"
  | SADD string "string list"
  | SREM string "string list"
  | SMEMBERS string
  | XADD string "(string \<times> string) list"

fun exec_cmd :: "int \<Rightarrow> cmd \<Rightarrow> store \<Rightarrow> reply \<times> store" where
  "exec_cmd t (GET k) s =
     (case live_entry t s k of
        None \<Rightarrow> (RNil, s)
      | Some (RStr v, e) \<Rightarrow> (RBulk v, s)
      | Some (_, e) \<Rightarrow> (RError, s))"
| "exec_cmd t (SET k v ex) s =
     (case ex of
        None \<Rightarrow> (ROk, s(k \<mapsto> (RStr v, None)))
      | Some n \<Rightarrow> if n \<le> 0 then (RError, s) else (ROk, s(k \<mapsto> (RStr v, Some (t + n)))))"
| "exec_cmd t (MGET ks) s =
     (if ks = [] then (RError, s)
      else (RArray (map (\<lambda>k. case live_entry t s k of Some (RStr v, e) \<Rightarrow> Some v | _ \<Rightarrow> None) ks), s))"
| "exec_cmd t (MSET kvs) s =
     (if kvs = [] then (RError, s)
      else (ROk, foldl (\<lambda>s' (k, v). s'(k \<mapsto> (RStr v, None))) s kvs))"
| "exec_cmd t (DEL ks) s =
     (if ks = [] then (RError, s)
      else (RInt (int (length (filter (\<lambda>k. live_entry t s k \<noteq> None) (remdups ks)))),
            (\<lambda>k. if k \<in> set ks then None else s k)))"
| "exec_cmd t (EXISTS ks) s =
     (if ks = [] then (RError, s)
      else (RInt (int (length (filter (\<lambda>k. live_entry t s k \<noteq> None) ks))), s))"
| "exec_cmd t (EXPIRE k n) s =
     (case live_entry t s k of
        None \<Rightarrow> (RInt 0, s)
      | Some (v, e) \<Rightarrow> (RInt 1, if n \<le> 0 then s(k := None) else s(k \<mapsto> (v, Some (t + n)))))"
| "exec_cmd t (HSET h f v) s =
     (case live_entry t s h of
        None \<Rightarrow> (RInt 1, s(h \<mapsto> (RHash [(f, v)], None)))
      | Some (RHash al, e) \<Rightarrow>
          (RInt (if map_of al f = None then 1 else 0), s(h \<mapsto> (RHash (AList.update f v al), e)))
      | Some (_, e) \<Rightarrow> (RError, s))"
| "exec_cmd t (HEXISTS h f) s =
     (case live_entry t s h of
        None \<Rightarrow> (RInt 0, s)
      | Some (RHash al, e) \<Rightarrow> (RInt (if map_of al f = None then 0 else 1), s)
      | Some (_, e) \<Rightarrow> (RError, s))"
| "exec_cmd t (HMGET h fs) s =
     (if fs = [] then (RError, s)
      else case live_entry t s h of
          None \<Rightarrow> (RArray (map (\<lambda>f. None) fs), s)
        | Some (RHash al, e) \<Rightarrow> (RArray (map (map_of al) fs), s)
        | Some (_, e) \<Rightarrow> (RError, s))"
| "exec_cmd t (HDEL h fs) s =
     (if fs = [] then (RError, s)
      else case live_entry t s h of
          None \<Rightarrow> (RInt 0, s)
        | Some (RHash al, e) \<Rightarrow>
            (let al' = filter (\<lambda>(f, v). f \<notin> set fs) al
             in (RInt (int (length al - length al')),
                 if al' = [] then s(h := None) else s(h \<mapsto> (RHash al', e))))
        | Some (_, e) \<Rightarrow> (RError, s))"
| "exec_cmd t (SADD k ms) s =
     (if ms = [] then (RError, s)
      else case live_entry t s k of
          None \<Rightarrow> (RInt (int (length (remdups ms))), s(k \<mapsto> (RSet (remdups ms), None)))
        | Some (RSet xs, e) \<Rightarrow>
            (let new = filter (\<lambda>m. m \<notin> set xs) (remdups ms)
             in (RInt (int (length new)), s(k \<mapsto> (RSet (xs @ new), e))))
        | Some (_, e) \<Rightarrow> (RError, s))"
| "exec_cmd t (SREM k ms) s =
     (if ms = [] then (RError, s)
      else case live_entry t s k of
          None \<Rightarrow> (RInt 0, s)
        | Some (RSet xs, e) \<Rightarrow>
            (let xs' = filter (\<lambda>x. x \<notin> set ms) xs
             in (RInt (int (length xs - length xs')),
                 if xs' = [] then s(k := None) else s(k \<mapsto> (RSet xs', e))))
        | Some (_, e) \<Rightarrow> (RError, s))"
| "exec_cmd t (SMEMBERS k) s =
     (case live_entry t s k of
        None \<Rightarrow> (RMembers [], s)
      | Some (RSet xs, e) \<Rightarrow> (RMembers xs, s)
      | Some (_, e) \<Rightarrow> (RError, s))"
| "exec_cmd t (XADD k fs) s =
     (case live_entry t s k of
        None \<Rightarrow> (RInt 0, s(k \<mapsto> (RStream [fs], None)))
      | Some (RStream es, e) \<Rightarrow> (RInt (int (length es)), s(k \<mapsto> (RStream (es @ [fs]), e)))
      | Some (_, e) \<Rightarrow> (RError, s))"

text \<open>A pipeline is the list of its queued commands; \<open>run\<close> sends them in order.\<close>

fun run :: "int \<Rightarrow> cmd list \<Rightarrow> store \<Rightarrow> reply list \<times> store" where
  "run t [] s = ([], s)"
| "run t (c # cs) s =
     (let (r, s1) = exec_cmd t c s; (rs, s2) = run t cs s1 in (r # rs, s2))"


section \<open>The client\<close>

subsection \<open>State, dictionaries and the connection\<close>

text \<open>
  A Python dict is an association list in insertion order. \<^verbatim>\<open>_modify_page\<close> has the
  parameter \<^verbatim>\<open>intent=dict()\<close>: that default is one object, made when the method is
  defined, and no caller passes another. It lives in the heap under \<open>Default_intent\<close>;
  the lists of executed intents hold references to it.
\<close>

datatype pyval =
    PNone
  | PStr string
  | PInt int
  | PBool bool
  | PFloat rat
  | PType string
  | PTuple "reply option list"

type_synonym dict = "(string \<times> pyval) list"

datatype ref = Default_intent

record state =
  store :: store
  heap :: "ref \<Rightarrow> dict"
  drawn :: nat

definition dict_update :: "dict \<Rightarrow> dict \<Rightarrow> dict" where
  "dict_update d kvs = foldl (\<lambda>d' (k, v). AList.update k v d') d kvs"

definition intent_update :: "state \<Rightarrow> ref \<Rightarrow> dict \<Rightarrow> state" where
  "intent_update st r kvs = st\<lparr>heap := (heap st)(r := dict_update (heap st r) kvs)\<rparr>"

definition py_opt :: "string option \<Rightarrow> pyval" where
  "py_opt x = (case x of None \<Rightarrow> PNone | Some s \<Rightarrow> PStr s)"

text \<open>\<open>+\<close> of Python, on the operands the client gives it.\<close>

fun py_add :: "pyval \<Rightarrow> pyval \<Rightarrow> py_error + pyval" where
  "py_add (PStr a) (PStr b) = Inr (PStr (a @ b))"
| "py_add (PInt a) (PInt b) = Inr (PInt (a + b))"
| "py_add a b = Inl TypeError"

text \<open>\<open>d[k]\<close> where the client then uses the value as a string.\<close>

definition get_item :: "dict \<Rightarrow> string \<Rightarrow> py_error + pyval" where
  "get_item d k = (case map_of d k of None \<Rightarrow> Inl (KeyError k) | Some v \<Rightarrow> Inr v)"

definition get_str :: "dict \<Rightarrow> string \<Rightarrow> py_error + string" where
  "get_str d k =
     (case map_of d k of
        None \<Rightarrow> Inl (KeyError k)
      | Some (PStr s) \<Rightarrow> Inr s
      | Some _ \<Rightarrow> Inl TypeError)"

fun sequence_sum :: "('e + 'a) list \<Rightarrow> 'e + 'a list" where
  "sequence_sum [] = Inr []"
| "sequence_sum (x # xs) =
     (case x of
        Inl e \<Rightarrow> Inl e
      | Inr a \<Rightarrow> (case sequence_sum xs of Inl e \<Rightarrow> Inl e | Inr as \<Rightarrow> Inr (a # as)))"

text \<open>Looking a variable up in the scope of a method body.\<close>

definition lookup_name :: "(string \<times> 'a) list \<Rightarrow> string \<Rightarrow> py_error + 'a" where
  "lookup_name scope x = (case map_of scope x of None \<Rightarrow> Inl (NameError x) | Some v \<Rightarrow> Inr v)"

text \<open>
  \<^verbatim>\<open>pipe.execute()\<close> sends every queued command and then raises if some reply is an
  error; a direct call such as \<^verbatim>\<open>self.client.sadd(...)\<close> raises on an error reply.
\<close>

definition execute :: "int \<Rightarrow> cmd list \<Rightarrow> state \<Rightarrow> state \<times> (py_error + reply list)" where
  "execute t pipe st =
     (let (rs, s') = run t pipe (store st)
      in (st\<lparr>store := s'\<rparr>, if list_ex (\<lambda>r. r = RError) rs then Inl ResponseError else Inr rs))"

definition call :: "int \<Rightarrow> cmd \<Rightarrow> state \<Rightarrow> state \<times> (py_error + reply)" where
  "call t c st =
     (let (r, s') = exec_cmd t c (store st)
      in (st\<lparr>store := s'\<rparr>, if r = RError then Inl ResponseError else Inr r))"

text \<open>A \<^verbatim>\<open>for\<close> loop over a list whose body updates an accumulator and may raise.\<close>

fun for_each ::
  "('i \<Rightarrow> state \<Rightarrow> 'a \<Rightarrow> state \<times> (py_error + 'a)) \<Rightarrow> 'i list \<Rightarrow> state \<Rightarrow> 'a
     \<Rightarrow> state \<times> (py_error + 'a)" where
  "for_each body [] st acc = (st, Inr acc)"
| "for_each body (x # xs) st acc =
     (case body x st acc of
        (st', Inl e) \<Rightarrow> (st', Inl e)
      | (st', Inr acc') \<Rightarrow> for_each body xs st' acc')"

subsection \<open>Reserved keys and conventions\<close>

definition obscurity :: string where
  "obscurity = ''09909e88-ca04-4868-a0a0-c94748df844f:::''"

definition OWNERSHIP :: string where "OWNERSHIP = obscurity @ ''ownership''"
definition NAMES :: string where "NAMES = obscurity @ ''names''"
definition PROMISES :: string where "PROMISES = obscurity @ ''promises:''"
definition DELAYED :: string where "DELAYED = ''delayed::''"
definition MESSAGES :: string where "MESSAGES = ''messages::''"
definition HISTORY :: string where "HISTORY = ''history::''"
definition SUBSCRIBERS :: string where "SUBSCRIBERS = ''subscribers::''"

subsection \<open>\<open>str\<close> of an integer\<close>

definition digit_char :: "nat \<Rightarrow> char" where
  "digit_char d = char_of (48 + d)"

fun str_nat :: "nat \<Rightarrow> string" where
  "str_nat n = (if n < 10 then [digit_char n] else str_nat (n div 10) @ [digit_char (n mod 10)])"

declare str_nat.simps [simp del]

definition py_str :: "int \<Rightarrow> string" where
  "py_str i = (if i < 0 then CHR ''-'' # str_nat (nat (- i)) else str_nat (nat i))"

subsection \<open>Random keys and names\<close>

definition random_key :: "env \<Rightarrow> state \<Rightarrow> string \<times> state" where
  "random_key env st = (random_key_at env (drawn st), st\<lparr>drawn := Suc (drawn st)\<rparr>)"

definition random_name :: "env \<Rightarrow> state \<Rightarrow> string \<times> state" where
  "random_name env st = (let (k, st') = random_key env st in (k @ ''.json'', st'))"

subsection \<open>Subscriptions\<close>

definition u_subscribe :: "int \<Rightarrow> state \<Rightarrow> string \<Rightarrow> string \<Rightarrow> state \<times> (py_error + unit)" where
  "u_subscribe now st publisher subscriber =
     (case call now (SADD (SUBSCRIBERS @ publisher) [subscriber]) st of
        (st', Inl e) \<Rightarrow> (st', Inl e)
      | (st', Inr r) \<Rightarrow> (st', Inr ()))"

text \<open>
  \<^verbatim>\<open>self.client.srem(self.SUBSCRIBERS+publisher,subsriber)\<close>: the second argument is
  the name \<^verbatim>\<open>subsriber\<close>, looked up among the parameters of the method (the module
  and the builtins define no such name either).
\<close>

definition u_unsubscribe :: "int \<Rightarrow> state \<Rightarrow> string \<Rightarrow> string \<Rightarrow> state \<times> (py_error + unit)" where
  "u_unsubscribe now st publisher subscriber =
     (case lookup_name [(''publisher'', publisher), (''subscriber'', subscriber)] ''subsriber'' of
        Inl e \<Rightarrow> (st, Inl e)
      | Inr member \<Rightarrow>
          (case call now (SREM (SUBSCRIBERS @ publisher) [member]) st of
             (st', Inl e) \<Rightarrow> (st', Inl e)
           | (st', Inr r) \<Rightarrow> (st', Inr ())))"

subsection \<open>Pages\<close>

text \<open>The loop of \<^verbatim>\<open>_modify_page\<close> over \<open>DELAY_SECONDS\<close>: two commands for each delay.\<close>

definition promise_cmds :: "env \<Rightarrow> int \<Rightarrow> string \<Rightarrow> string \<Rightarrow> cmd list" where
  "promise_cmds env utc_epoch_now name_of_copy name =
     concat (map (\<lambda>delay_seconds.
       let PROMISE = PROMISES @ py_str (utc_epoch_now + int delay_seconds);
           SOURCE = name_of_copy;
           DESTINATION = DELAYED @ py_str (int delay_seconds) @ '':'' @ name
       in [SADD PROMISE [SOURCE @ ''->'' @ DESTINATION],
           EXPIRE PROMISE (int delay_seconds + 60)]) (DELAY_SECONDS env))"

text \<open>
  \<open>now\<close> is what \<^verbatim>\<open>int(time.time())\<close> returns during the call. \<^verbatim>\<open>pipe.xadd\<close> is
  inside \<^verbatim>\<open>try ... except: pass\<close>: a connection without streams queues nothing.
\<close>

definition u_modify_page ::
  "env \<Rightarrow> int \<Rightarrow> state \<Rightarrow> cmd list \<Rightarrow> int \<Rightarrow> string \<Rightarrow> string
     \<Rightarrow> state \<times> (py_error + cmd list \<times> ref)" where
  "u_modify_page env now st pipe ndx name v =
     (case cost_based_ttl env v of
        Inl e \<Rightarrow> (st, Inl e)
      | Inr (ttl, ttl_days) \<Rightarrow>
          (let pipe1 = pipe @ [SET name v (Some ttl)];
               (k, st1) = random_key env st;
               name_of_copy = k @ '':'' @ name;
               HISTORY_TTL = min (max (2 * 60 * 60) ttl) (60 * 60 * 24);
               pipe2 = pipe1 @ [SET name_of_copy v (Some HISTORY_TTL)];
               pipe3 = (if has_xadd env
                        then pipe2 @ [XADD (HISTORY @ name) [(''copy'', name_of_copy)]]
                        else pipe2);
               pipe4 = pipe3 @ promise_cmds env now name_of_copy name;
               intent = Default_intent;
               st2 = intent_update st1 intent
                       [(''ndx'', PInt ndx), (''name'', PStr name), (''value'', PStr v),
                        (''ttl_days'', PFloat ttl_days), (''new'', PBool False),
                        (''obscure'', PBool False), (''copy'', PStr name_of_copy)]
           in (st2, Inr (pipe4, intent))))"

definition u_new_page ::
  "env \<Rightarrow> int \<Rightarrow> state \<Rightarrow> cmd list \<Rightarrow> int \<Rightarrow> string \<Rightarrow> string \<Rightarrow> string
     \<Rightarrow> state \<times> (py_error + cmd list \<times> ref)" where
  "u_new_page env now st pipe ndx name v write_key =
     (case cost_based_ttl env v of
        Inl e \<Rightarrow> (st, Inl e)
      | Inr (ttl, ttl_days) \<Rightarrow>
          (let pipe1 = pipe @ [HSET OWNERSHIP name write_key];
               pipe2 = pipe1 @ [SADD NAMES [name]]
           in case u_modify_page env now st pipe2 ndx name v of
                (st1, Inl e) \<Rightarrow> (st1, Inl e)
              | (st1, Inr (pipe3, intent)) \<Rightarrow>
                  (intent_update st1 intent [(''new'', PBool True), (''write_key'', PStr write_key)],
                   Inr (pipe3, intent))))"

definition u_new_obscure_page ::
  "env \<Rightarrow> int \<Rightarrow> state \<Rightarrow> cmd list \<Rightarrow> int \<Rightarrow> string \<Rightarrow> string \<Rightarrow> string
     \<Rightarrow> state \<times> (py_error + cmd list \<times> ref)" where
  "u_new_obscure_page env now st pipe ndx name v write_key =
     (case u_new_page env now st pipe ndx name v write_key of
        (st1, Inl e) \<Rightarrow> (st1, Inl e)
      | (st1, Inr (pipe1, intent)) \<Rightarrow>
          (intent_update st1 intent [(''obscure'', PBool True)], Inr (pipe1, intent)))"

subsection \<open>Grouping pipeline results\<close>

text \<open>\<^verbatim>\<open>zip_longest(*[iter(results)] * m, fillvalue=None)\<close>: tuples of \<open>m\<close> results, the
  last one filled with \<open>None\<close>; no tuple at all when \<open>m\<close> is 0.\<close>

function grouper :: "'a list \<Rightarrow> nat \<Rightarrow> 'a option list list" where
  "grouper xs m =
     (if m = 0 \<or> xs = [] then []
      else (map Some (take m xs) @ replicate (m - length (take m xs)) None) # grouper (drop m xs) m)"
  by pat_completeness auto
termination
  by (relation "measure (\<lambda>(xs, m). length xs)") auto

declare grouper.simps [simp del]

definition pipe_results_grouper :: "'a list \<Rightarrow> nat \<Rightarrow> py_error + 'a option list list" where
  "pipe_results_grouper results n =
     (if n = 0 then Inl ZeroDivisionError else Inr (grouper results (length results div n)))"

definition attach_results :: "state \<Rightarrow> ref list \<Rightarrow> reply option list list \<Rightarrow> state" where
  "attach_results st executed results =
     foldl (\<lambda>st' (intent, res). intent_update st' intent [(''result'', PTuple res)])
       st (zip executed results)"

text \<open>The tail shared by the three phases:
  \<^verbatim>\<open>if len(executed): ... pipe.execute() ... intent.update({"result":res})\<close>.\<close>

definition execute_and_attach ::
  "int \<Rightarrow> cmd list \<Rightarrow> ref list \<Rightarrow> state \<Rightarrow> state \<times> (py_error + unit)" where
  "execute_and_attach now pipe executed st =
     (if executed = [] then (st, Inr ())
      else case execute now pipe st of
          (st1, Inl e) \<Rightarrow> (st1, Inl e)
        | (st1, Inr results) \<Rightarrow>
            (case pipe_results_grouper results (length executed) of
               Inl e \<Rightarrow> (st1, Inl e)
             | Inr groups \<Rightarrow> (attach_results st1 executed groups, Inr ())))"


subsection \<open>The three phases of a batched write\<close>

record set_acc =
  acc_pipe :: "cmd list"
  acc_executed :: "ref list"
  acc_rejected :: "dict list"
  acc_ignored :: "int list"

definition acc0 :: set_acc where
  "acc0 = \<lparr>acc_pipe = [], acc_executed = [], acc_rejected = [], acc_ignored = []\<rparr>"

definition reject :: "set_acc \<Rightarrow> dict \<Rightarrow> set_acc" where
  "reject acc d = acc\<lparr>acc_rejected := acc_rejected acc @ [d]\<rparr>"

definition default_key :: "env \<Rightarrow> state \<Rightarrow> string option \<Rightarrow> string \<times> state" where
  "default_key env st write_key =
     (case write_key of None \<Rightarrow> random_key env st | Some k \<Rightarrow> (k, st))"

text \<open>
  The body of the loop of \<^verbatim>\<open>_pipelined_set_obscure\<close>. The record of an invalid value
  holds \<^verbatim>\<open>"invalid value of type "+type(value)+" was supplied"\<close>, a sum of a string and
  a type object.
\<close>

definition obscure_body ::
  "env \<Rightarrow> int \<Rightarrow> int \<times> string option \<times> string \<times> string option \<Rightarrow> state \<Rightarrow> set_acc
     \<Rightarrow> state \<times> (py_error + set_acc)" where
  "obscure_body env now item st acc =
     (case item of (ndx, name, v, write_key) \<Rightarrow>
        if \<not> is_valid_value env v then
          (case py_add (PStr ''invalid value of type '') (PType ''str'') of
             Inl e \<Rightarrow> (st, Inl e)
           | Inr m \<Rightarrow>
               (case py_add m (PStr '' was supplied'') of
                  Inl e \<Rightarrow> (st, Inl e)
                | Inr msg \<Rightarrow>
                    (st, Inr (reject acc [(''ndx'', PInt ndx), (''name'', py_opt name),
                                          (''value'', PStr v), (''error'', msg)]))))
        else
          (case name of
             None \<Rightarrow>
               (let (wk, st1) = default_key env st write_key
                in if \<not> is_valid_key wk then
                     (st1, Inr (reject acc [(''ndx'', PInt ndx), (''name'', PNone),
                                            (''write_key'', PStr wk),
                                            (''errror'', PStr ''invalid write_key'')]))
                   else
                     (let (new_name, st2) = random_name env st1
                      in case u_new_obscure_page env now st2 (acc_pipe acc) ndx new_name v wk of
                           (st3, Inl e) \<Rightarrow> (st3, Inl e)
                         | (st3, Inr (pipe, intent)) \<Rightarrow>
                             (st3, Inr (acc\<lparr>acc_pipe := pipe,
                                            acc_executed := acc_executed acc @ [intent]\<rparr>))))
           | Some n \<Rightarrow>
               if \<not> is_valid_name n then
                 (st, Inr (reject acc [(''ndx'', PInt ndx), (''name'', PStr n),
                                       (''error'', PStr ''invalid name'')]))
               else (st, Inr (acc\<lparr>acc_ignored := acc_ignored acc @ [ndx]\<rparr>))))"

text \<open>
  The residual of a phase: the inputs whose index the phase ignored. Only inputs with a
  name are ignored by the first phase, so the residual names are strings.
\<close>

definition u_pipelined_set_obscure ::
  "env \<Rightarrow> int \<Rightarrow> state \<Rightarrow> int list \<Rightarrow> string option list \<Rightarrow> string list \<Rightarrow> string option list
     \<Rightarrow> state \<times> (py_error + ref list \<times> dict list \<times> int list \<times> string list \<times> string list \<times> string option list)" where
  "u_pipelined_set_obscure env now st ndxs names values write_keys =
     (case (if ndxs = [] then (st, Inr acc0)
            else case for_each (obscure_body env now)
                        (zip ndxs (zip names (zip values write_keys))) st acc0 of
                (st1, Inl e) \<Rightarrow> (st1, Inl e)
              | (st1, Inr acc) \<Rightarrow>
                  (case execute_and_attach now (acc_pipe acc) (acc_executed acc) st1 of
                     (st2, Inl e) \<Rightarrow> (st2, Inl e)
                   | (st2, Inr u) \<Rightarrow> (st2, Inr acc))) of
        (st', Inl e) \<Rightarrow> (st', Inl e)
      | (st', Inr acc) \<Rightarrow>
          (let ignored_ndxs = acc_ignored acc;
               names' = [n. (Some n, ndx) \<leftarrow> zip names ndxs, ndx \<in> set ignored_ndxs];
               values' = [v. (v, ndx) \<leftarrow> zip values ndxs, ndx \<in> set ignored_ndxs];
               write_keys' = [w. (w, ndx) \<leftarrow> zip write_keys ndxs, ndx \<in> set ignored_ndxs]
           in (st', Inr (acc_executed acc, acc_rejected acc, ignored_ndxs,
                         names', values', write_keys'))))"

definition as_bool :: "reply \<Rightarrow> bool" where
  "as_bool r = (case r of RInt n \<Rightarrow> n \<noteq> 0 | RNil \<Rightarrow> False | _ \<Rightarrow> True)"

definition members_of :: "reply \<Rightarrow> string list" where
  "members_of r = (case r of RMembers xs \<Rightarrow> xs | _ \<Rightarrow> [])"

definition new_body ::
  "env \<Rightarrow> int \<Rightarrow> bool \<times> int \<times> string \<times> string \<times> string option \<Rightarrow> state \<Rightarrow> set_acc
     \<Rightarrow> state \<times> (py_error + set_acc)" where
  "new_body env now item st acc =
     (case item of (exist, ndx, name, v, write_key) \<Rightarrow>
        if \<not> exist then
          (let (wk, st1) = default_key env st write_key
           in if \<not> is_valid_key wk then
                (st1, Inr (reject acc [(''ndx'', PInt ndx), (''name'', PStr name),
                                       (''write_key'', PStr wk),
                                       (''errror'', PStr ''invalid write_key'')]))
              else
                (case u_new_page env now st1 (acc_pipe acc) ndx name v wk of
                   (st2, Inl e) \<Rightarrow> (st2, Inl e)
                 | (st2, Inr (pipe, intent)) \<Rightarrow>
                     (st2, Inr (acc\<lparr>acc_pipe := pipe,
                                    acc_executed := acc_executed acc @ [intent]\<rparr>))))
        else (st, Inr (acc\<lparr>acc_ignored := acc_ignored acc @ [ndx]\<rparr>)))"

definition u_pipelined_set_new ::
  "env \<Rightarrow> int \<Rightarrow> state \<Rightarrow> int list \<Rightarrow> string list \<Rightarrow> string list \<Rightarrow> string option list
     \<Rightarrow> state \<times> (py_error + ref list \<times> dict list \<times> int list \<times> string list \<times> string list \<times> string option list)" where
  "u_pipelined_set_new env now st ndxs names values write_keys =
     (case (if ndxs = [] then (st, Inr acc0)
            else case execute now (map (\<lambda>name. HEXISTS OWNERSHIP name) names) st of
                (st0, Inl e) \<Rightarrow> (st0, Inl e)
              | (st0, Inr exists) \<Rightarrow>
                  (case for_each (new_body env now)
                          (zip (map as_bool exists) (zip ndxs (zip names (zip values write_keys))))
                          st0 acc0 of
                     (st1, Inl e) \<Rightarrow> (st1, Inl e)
                   | (st1, Inr acc) \<Rightarrow>
                       (case execute_and_attach now (acc_pipe acc) (acc_executed acc) st1 of
                          (st2, Inl e) \<Rightarrow> (st2, Inl e)
                        | (st2, Inr u) \<Rightarrow> (st2, Inr acc)))) of
        (st', Inl e) \<Rightarrow> (st', Inl e)
      | (st', Inr acc) \<Rightarrow>
          (let ignored_ndxs = acc_ignored acc;
               names' = [n. (n, ndx) \<leftarrow> zip names ndxs, ndx \<in> set ignored_ndxs];
               values' = [v. (v, ndx) \<leftarrow> zip values ndxs, ndx \<in> set ignored_ndxs];
               write_keys' = [w. (w, ndx) \<leftarrow> zip write_keys ndxs, ndx \<in> set ignored_ndxs]
           in (st', Inr (acc_executed acc, acc_rejected acc, ignored_ndxs,
                         names', values', write_keys'))))"

text \<open>\<^verbatim>\<open>_write_keys\<close> returns \<open>None\<close> for an empty list of names.\<close>

definition u_write_keys ::
  "int \<Rightarrow> state \<Rightarrow> string list \<Rightarrow> state \<times> (py_error + string option list option)" where
  "u_write_keys now st names =
     (if names = [] then (st, Inr None)
      else case call now (HMGET OWNERSHIP names) st of
          (st1, Inl e) \<Rightarrow> (st1, Inl e)
        | (st1, Inr r) \<Rightarrow> (st1, Inr (Some (case r of RArray xs \<Rightarrow> xs | _ \<Rightarrow> []))))"

text \<open>\<open>k[-4:]\<close>: the last four characters, the whole string when it is shorter.\<close>

definition last4 :: "string \<Rightarrow> string" where
  "last4 k = drop (length k - 4) k"

text \<open>
  The body of the loop of \<^verbatim>\<open>_pipelined_set_existing\<close>. \<^verbatim>\<open>official_write_key[-4:]\<close>
  raises when the ledger has no key for the name.
\<close>

definition existing_body ::
  "env \<Rightarrow> int \<Rightarrow> int \<times> string \<times> string \<times> string option \<times> string option \<Rightarrow> state \<Rightarrow> set_acc
     \<Rightarrow> state \<times> (py_error + set_acc)" where
  "existing_body env now item st acc =
     (case item of (ndx, name, v, write_key, official_write_key) \<Rightarrow>
        if write_key = official_write_key then
          (case u_modify_page env now st (acc_pipe acc) ndx name v of
             (st1, Inl e) \<Rightarrow> (st1, Inl e)
           | (st1, Inr (pipe, intent)) \<Rightarrow>
               (intent_update st1 intent [(''write_key'', py_opt write_key)],
                Inr (acc\<lparr>acc_pipe := pipe, acc_executed := acc_executed acc @ [intent]\<rparr>)))
        else
          (case official_write_key of
             None \<Rightarrow> (st, Inl TypeError)
           | Some k \<Rightarrow>
               (st, Inr (reject acc
                  [(''name'', PStr name), (''value'', PStr v), (''write_key'', py_opt write_key),
                   (''official_write_key_ends_in'', PStr (last4 k)),
                   (''error'', PStr ''write_key does not match page_key on record'')]))))"

definition u_pipelined_set_existing ::
  "env \<Rightarrow> int \<Rightarrow> state \<Rightarrow> int list \<Rightarrow> string list \<Rightarrow> string list \<Rightarrow> string option list
     \<Rightarrow> state \<times> (py_error + ref list \<times> dict list)" where
  "u_pipelined_set_existing env now st ndxs names values write_keys =
     (if ndxs = [] then (st, Inr ([], []))
      else case u_write_keys now st names of
          (st0, Inl e) \<Rightarrow> (st0, Inl e)
        | (st0, Inr None) \<Rightarrow> (st0, Inl TypeError)
        | (st0, Inr (Some official_write_keys)) \<Rightarrow>
            (case for_each (existing_body env now)
                    (zip ndxs (zip names (zip values (zip write_keys official_write_keys))))
                    st0 acc0 of
               (st1, Inl e) \<Rightarrow> (st1, Inl e)
             | (st1, Inr acc) \<Rightarrow>
                 (case execute_and_attach now (acc_pipe acc) (acc_executed acc) st1 of
                    (st2, Inl e) \<Rightarrow> (st2, Inl e)
                  | (st2, Inr u) \<Rightarrow> (st2, Inr (acc_executed acc, acc_rejected acc)))))"

subsection \<open>Subscriber fan-out\<close>

text \<open>A set reply is iterated in the order the model keeps its members.\<close>

definition u_propagate_to_subscribers ::
  "int \<Rightarrow> state \<Rightarrow> string list \<Rightarrow> string list \<Rightarrow> state \<times> (py_error + dict list)" where
  "u_propagate_to_subscribers now st names values =
     (case execute now (map (\<lambda>name. SMEMBERS (SUBSCRIBERS @ name)) names) st of
        (st1, Inl e) \<Rightarrow> (st1, Inl e)
      | (st1, Inr subscribers_sets) \<Rightarrow>
          (let sends = concat (map (\<lambda>(sender_name, v, subscribers_set).
                                 map (\<lambda>subscriber. (MESSAGES @ subscriber, sender_name, v))
                                   subscribers_set)
                         (zip names (zip values (map members_of subscribers_sets))));
               propagate_pipe = map (\<lambda>(mailbox_name, sender_name, v).
                                  HSET mailbox_name sender_name v) sends;
               executed = map (\<lambda>(mailbox_name, sender_name, v).
                            [(''mailbox_name'', PStr mailbox_name), (''sender'', PStr sender_name),
                             (''value'', PStr v)]) sends
           in if executed = [] then (st1, Inr executed)
              else case execute now propagate_pipe st1 of
                  (st2, Inl e) \<Rightarrow> (st2, Inl e)
                | (st2, Inr results) \<Rightarrow>
                    (case pipe_results_grouper results (length executed) of
                       Inl e \<Rightarrow> (st2, Inl e)
                     | Inr groups \<Rightarrow>
                         (st2, Inr (map (\<lambda>(intent, res). dict_update intent [(''result'', PTuple res)])
                                      (zip executed groups)
                                    @ drop (length groups) executed)))))"

subsection \<open>\<open>set\<close>\<close>

definition u_coerce_inputs ::
  "'n list option \<Rightarrow> 'v list option \<Rightarrow> 'k list option \<Rightarrow> 'n \<Rightarrow> 'v \<Rightarrow> 'k
     \<Rightarrow> 'n list \<times> 'v list \<times> 'k list" where
  "u_coerce_inputs names values write_keys name v write_key =
     (let names1 = (case names of None \<Rightarrow> [name] | Some ns \<Rightarrow> if ns = [] then [name] else ns);
          values1 = (case values of None \<Rightarrow> map (\<lambda>n. v) names1
                     | Some vs \<Rightarrow> if vs = [] then map (\<lambda>n. v) names1 else vs);
          write_keys1 = (case write_keys of None \<Rightarrow> map (\<lambda>n. write_key) names1
                         | Some ks \<Rightarrow> if ks = [] then map (\<lambda>n. write_key) names1 else ks)
      in (names1, values1, write_keys1))"

definition ndx_of :: "pyval \<Rightarrow> int" where
  "ndx_of x = (case x of PInt i \<Rightarrow> i | _ \<Rightarrow> 0)"

text \<open>\<^verbatim>\<open>sorted\<close> is stable, as \<open>sort_key\<close> is; every entry is read through its reference.\<close>

definition u_coerce_outputs :: "state \<Rightarrow> ref list \<Rightarrow> py_error + dict list" where
  "u_coerce_outputs st executed =
     (case sequence_sum (map (\<lambda>d. get_item (heap st d) ''ndx'') executed) of
        Inl e \<Rightarrow> Inl e
      | Inr keys \<Rightarrow>
          sequence_sum
            (map (\<lambda>s. case get_item (heap st s) ''name'' of
                        Inl e \<Rightarrow> Inl e
                      | Inr n \<Rightarrow>
                          (case get_item (heap st s) ''write_key'' of
                             Inl e \<Rightarrow> Inl e
                           | Inr w \<Rightarrow> Inr [(''name'', n), (''write_key'', w)]))
               (map snd (sort_key fst (zip (map ndx_of keys) executed)))))"

text \<open>
  \<^verbatim>\<open>_set\<close> is called by \<^verbatim>\<open>set\<close> with the three lists already coerced and not empty, so
  its own call of \<^verbatim>\<open>_coerce_inputs\<close> returns them as they are.
\<close>

definition u_set ::
  "env \<Rightarrow> int \<Rightarrow> state \<Rightarrow> string option list \<Rightarrow> string list \<Rightarrow> string option list
     \<Rightarrow> state \<times> (py_error + ref list \<times> dict list)" where
  "u_set env now st names values write_keys =
     (let ndxs = map int [0..<length names]
      in case u_pipelined_set_obscure env now st ndxs names values write_keys of
           (st1, Inl e) \<Rightarrow> (st1, Inl e)
         | (st1, Inr (executed_obscure, rejected_obscure, ndxs1, names1, values1, write_keys1)) \<Rightarrow>
      (case u_pipelined_set_new env now st1 ndxs1 names1 values1 write_keys1 of
           (st2, Inl e) \<Rightarrow> (st2, Inl e)
         | (st2, Inr (executed_new, rejected_new, ndxs2, names2, values2, write_keys2)) \<Rightarrow>
      (case u_pipelined_set_existing env now st2 ndxs2 names2 values2 write_keys2 of
           (st3, Inl e) \<Rightarrow> (st3, Inl e)
         | (st3, Inr (executed_existing, rejected_existing)) \<Rightarrow>
      (case sequence_sum (map (\<lambda>ex. get_str (heap st3 ex) ''name'') executed_existing) of
           Inl e \<Rightarrow> (st3, Inl e)
         | Inr modified_names \<Rightarrow>
      (case sequence_sum (map (\<lambda>ex. get_str (heap st3 ex) ''value'') executed_existing) of
           Inl e \<Rightarrow> (st3, Inl e)
         | Inr modified_values \<Rightarrow>
      (case u_propagate_to_subscribers now st3 modified_names modified_values of
           (st4, Inl e) \<Rightarrow> (st4, Inl e)
         | (st4, Inr propagated) \<Rightarrow>
             (st4, Inr (executed_obscure @ executed_new @ executed_existing,
                        rejected_obscure @ rejected_new @ rejected_existing))))))))"

datatype set_result = One dict | Many "dict list"

definition rediz_set ::
  "env \<Rightarrow> int \<Rightarrow> state \<Rightarrow> string option list option \<Rightarrow> string list option
     \<Rightarrow> string option list option \<Rightarrow> string option \<Rightarrow> string \<Rightarrow> string option
     \<Rightarrow> state \<times> (py_error + set_result)" where
  "rediz_set env now st names values write_keys name v write_key =
     (let singular = (names = None);
          (names1, values1, write_keys1) = u_coerce_inputs names values write_keys name v write_key
      in case u_set env now st names1 values1 write_keys1 of
           (st1, Inl e) \<Rightarrow> (st1, Inl e)
         | (st1, Inr (executed, rejected)) \<Rightarrow>
             (case u_coerce_outputs st1 executed of
                Inl e \<Rightarrow> (st1, Inl e)
              | Inr access \<Rightarrow>
                  if singular then
                    (case access of [] \<Rightarrow> (st1, Inl IndexError) | a # rest \<Rightarrow> (st1, Inr (One a)))
                  else (st1, Inr (Many access))))"

subsection \<open>\<open>get\<close>\<close>

text \<open>The connection refuses \<open>None\<close> as a key.\<close>

definition u_pipelined_get ::
  "int \<Rightarrow> state \<Rightarrow> string option list \<Rightarrow> state \<times> (py_error + string option list option)" where
  "u_pipelined_get now st names =
     (if names = [] then (st, Inr None)
      else case sequence_sum (map (\<lambda>n. case n of None \<Rightarrow> Inl DataError | Some x \<Rightarrow> Inr x) names) of
          Inl e \<Rightarrow> (st, Inl e)
        | Inr keys \<Rightarrow>
            (case execute now (map GET keys) st of
               (st1, Inl e) \<Rightarrow> (st1, Inl e)
             | (st1, Inr rs) \<Rightarrow>
                 (st1, Inr (Some (map (\<lambda>r. case r of RBulk x \<Rightarrow> Some x | _ \<Rightarrow> None) rs)))))"

datatype get_result = Value "string option" | Values "string option list option"

definition rediz_get ::
  "int \<Rightarrow> state \<Rightarrow> string option \<Rightarrow> string option list option \<Rightarrow> state \<times> (py_error + get_result)" where
  "rediz_get now st name names =
     (let names1 = (case names of None \<Rightarrow> [name] | Some ns \<Rightarrow> if ns = [] then [name] else ns)
      in case u_pipelined_get now st names1 of
           (st1, Inl e) \<Rightarrow> (st1, Inl e)
         | (st1, Inr res) \<Rightarrow>
             if name = None then (st1, Inr (Values res))
             else (case res of
                     None \<Rightarrow> (st1, Inl TypeError)
                   | Some [] \<Rightarrow> (st1, Inl IndexError)
                   | Some (x # xs) \<Rightarrow> (st1, Inr (Value x))))"

subsection \<open>\<open>delete\<close>\<close>

definition assert_not_in_reserved_namespace :: "string list \<Rightarrow> py_error + unit" where
  "assert_not_in_reserved_namespace names =
     (if list_ex (\<lambda>name. py_in ''::'' name) names then Inl ReservedNamespace else Inr ())"

text \<open>\<^verbatim>\<open>_delete\<close> after \<^verbatim>\<open>list_or_args\<close> has joined its arguments into one list.\<close>

definition u_delete :: "int \<Rightarrow> state \<Rightarrow> string list \<Rightarrow> state \<times> (py_error + unit)" where
  "u_delete now st names =
     (case assert_not_in_reserved_namespace names of
        Inl e \<Rightarrow> (st, Inl e)
      | Inr u \<Rightarrow>
     (case execute now (map (\<lambda>name. SMEMBERS (SUBSCRIBERS @ name)) names) st of
        (st1, Inl e) \<Rightarrow> (st1, Inl e)
      | (st1, Inr subs_res) \<Rightarrow>
     (case execute now
             (concat (map (\<lambda>(name, subscribers).
                        map (\<lambda>subscriber. HDEL (MESSAGES @ name) [name]) subscribers)
                (zip names (map members_of subs_res)))) st1 of
        (st2, Inl e) \<Rightarrow> (st2, Inl e)
      | (st2, Inr rs) \<Rightarrow>
     (case execute now
             [HDEL OWNERSHIP names,
              DEL (map (\<lambda>name. SUBSCRIBERS @ name) names),
              DEL (map (\<lambda>name. MESSAGES @ name) names),
              DEL names,
              DEL (map (\<lambda>name. HISTORY @ name) names),
              SREM NAMES names] st2 of
        (st3, Inl e) \<Rightarrow> (st3, Inl e)
      | (st3, Inr rs') \<Rightarrow> (st3, Inr ())))))"

text \<open>
  The call \<^verbatim>\<open>self._delete(*kill_list)\<close> of a method declared
  \<^verbatim>\<open>def _delete(self, names, *args)\<close>: the first element is bound to \<open>names\<close>, and an
  empty list leaves the required parameter without an argument.
\<close>

definition u_delete_star :: "int \<Rightarrow> state \<Rightarrow> string list \<Rightarrow> state \<times> (py_error + unit)" where
  "u_delete_star now st kill_list =
     (case kill_list of
        [] \<Rightarrow> (st, Inl TypeError)
      | names # args \<Rightarrow> u_delete now st ([names] @ args))"

definition u_are_valid_write_keys ::
  "int \<Rightarrow> state \<Rightarrow> string list \<Rightarrow> string option list \<Rightarrow> state \<times> (py_error + bool list)" where
  "u_are_valid_write_keys now st names write_keys =
     (case u_write_keys now st names of
        (st1, Inl e) \<Rightarrow> (st1, Inl e)
      | (st1, Inr None) \<Rightarrow> (st1, Inl TypeError)
      | (st1, Inr (Some ks)) \<Rightarrow> (st1, Inr (map (\<lambda>(k, k1). k = k1) (zip write_keys ks))))"

definition rediz_delete ::
  "int \<Rightarrow> state \<Rightarrow> string \<Rightarrow> string option \<Rightarrow> string list option \<Rightarrow> string option list option
     \<Rightarrow> state \<times> (py_error + unit)" where
  "rediz_delete now st name write_key names write_keys =
     (let names1 = (case names of None \<Rightarrow> [name] | Some ns \<Rightarrow> if ns = [] then [name] else ns);
          write_keys1 = (case write_keys of None \<Rightarrow> [write_key]
                         | Some ks \<Rightarrow> if ks = [] then [write_key] else ks)
      in case u_are_valid_write_keys now st names1 write_keys1 of
           (st1, Inl e) \<Rightarrow> (st1, Inl e)
         | (st1, Inr are_valid) \<Rightarrow>
             u_delete_star now st1
               [name. (name, is_valid_write_key) \<leftarrow> zip names1 are_valid, is_valid_write_key])"

subsection \<open>Promise execution\<close>







section \<open>A concrete environment\<close>

text \<open>
  An instance with two delays, exact arithmetic, the size CPython gives an ASCII string,
  and random keys of 36 characters; an empty store with an empty default intent.
\<close>

definition example_env :: env where
  "example_env =
     \<lparr>DELAY_SECONDS = [5, 10],
      getsizeof = (\<lambda>v. 49 + length v),
      rnd = (\<lambda>x. x),
      random_key_at = (\<lambda>n. replicate 35 CHR ''k'' @ [digit_char (n mod 10)]),
      has_xadd = True\<rparr>"

definition empty_state :: state where
  "empty_state = \<lparr>store = (\<lambda>k. None), heap = (\<lambda>r. []), drawn = 0\<rparr>"

definition key_A :: string where
  "key_A = replicate 36 CHR ''a''"

definition key_B :: string where
  "key_B = replicate 36 CHR ''b''"

section \<open>Notions for the statements\<close>



text \<open>The commands one call of \<^verbatim>\<open>_modify_page\<close> queues, given the random key it drew
  and the seconds the cost model gave.\<close>

definition page_cmds :: "env \<Rightarrow> int \<Rightarrow> string \<Rightarrow> string \<Rightarrow> string \<Rightarrow> int \<Rightarrow> cmd list" where
  "page_cmds env now k name v ttl =
     [SET name v (Some ttl), SET (k @ '':'' @ name) v (Some (min (max (2 * 60 * 60) ttl) (60 * 60 * 24)))]
     @ (if has_xadd env then [XADD (HISTORY @ name) [(''copy'', k @ '':'' @ name)]] else [])
     @ promise_cmds env now (k @ '':'' @ name) name"

text \<open>The inputs of the third phase of a batched write, as the loop of
  \<^verbatim>\<open>_pipelined_set_existing\<close> zips them: index, name, value, supplied key and the key the
  ledger returned. \<open>key_matches\<close> is the test of the loop; \<open>existing_pages\<close> is the
  pipeline in which every input whose key matches queues its page, with the random key
  it draws; \<open>ownership_error\<close> is the record of a rejected input, which holds of the
  official key its last four characters.\<close>

type_synonym existing_item = "int \<times> string \<times> string \<times> string option \<times> string option"

definition key_matches :: "existing_item \<Rightarrow> bool" where
  "key_matches item = (case item of (ndx, name, v, write_key, official) \<Rightarrow> write_key = official)"

fun existing_pages :: "env \<Rightarrow> int \<Rightarrow> nat \<Rightarrow> existing_item list \<Rightarrow> cmd list" where
  "existing_pages env now d [] = []"
| "existing_pages env now d ((ndx, name, v, write_key, official) # items) =
     (if write_key = official
      then page_cmds env now (random_key_at env d) name v (fst (projr (cost_based_ttl env v)))
           @ existing_pages env now (Suc d) items
      else existing_pages env now d items)"

definition ownership_error :: "existing_item \<Rightarrow> dict" where
  "ownership_error item =
     (case item of (ndx, name, v, write_key, official) \<Rightarrow>
        [(''name'', PStr name), (''value'', PStr v), (''write_key'', py_opt write_key),
         (''official_write_key_ends_in'',
            PStr (drop (length (the official) - 4) (the official))),
         (''error'', PStr ''write_key does not match page_key on record'')])"



definition delayed_name :: "nat \<Rightarrow> string \<Rightarrow> string" where
  "delayed_name d name = DELAYED @ py_str (int d) @ '':'' @ name"

definition promise_member :: "string \<Rightarrow> nat \<Rightarrow> string \<Rightarrow> string" where
  "promise_member name_of_copy d name = name_of_copy @ ''->'' @ delayed_name d name"

text \<open>A store in which \<open>key_A\<close> owns \<open>a.json\<close>, and \<open>b.json\<close> is subscribed to \<open>a.json\<close> and
  to the name \<open>p.json\<close> that nobody owns.\<close>

definition owned_state :: state where
  "owned_state =
     empty_state\<lparr>store :=
       (\<lambda>k. None)(OWNERSHIP \<mapsto> (RHash [(''a.json'', key_A)], None),
                   NAMES \<mapsto> (RSet [''a.json''], None),
                   ''a.json'' \<mapsto> (RStr ''v1'', Some 605800),
                   SUBSCRIBERS @ ''a.json'' \<mapsto> (RSet [''b.json''], None),
                   SUBSCRIBERS @ ''p.json'' \<mapsto> (RSet [''b.json''], None))\<rparr>"


section \<open>Properties of naming and validation\<close>












section \<open>Properties of the cost model\<close>

lemma cost_based_ttl_unfold:
  "cost_based_ttl env v =
     (if credits env v = 0 then Inl ZeroDivisionError
      else Inr (min \<lceil>rnd env (2592000 / credits env v)\<rceil> 604800,
                rnd env (of_int (min \<lceil>rnd env (2592000 / credits env v)\<rceil> 604800) / 86400)))"
  by (simp add: cost_based_ttl_def credits_def Let_def)

text \<open>
  The facts about rounding the proofs use: it is monotone, and it leaves \<open>1\<close> and
  \<open>1/1024\<close>, two powers of two, as they are. Rounding to the nearest double is such a
  function, and so is exact arithmetic.
\<close>

lemma credits_pos:
  assumes "mono (rnd env)" "rnd env 1 = 1" "rnd env (1 / 1024) = 1 / 1024"
  shows "0 < credits env v"
proof -
  have a: "1 \<le> rnd env (of_nat (getsizeof env v + 100))"
    using monoD[OF assms(1), of 1 "of_nat (getsizeof env v + 100)"] assms(2) by simp
  have b: "1 \<le> rnd env (3 * rnd env (of_nat (getsizeof env v + 100)))"
    using monoD[OF assms(1), of 1 "3 * rnd env (of_nat (getsizeof env v + 100))"] assms(2) a
    by simp
  have c: "1 / 1024 \<le> rnd env (1 / 1000)"
    using monoD[OF assms(1), of "1 / 1024" "1 / 1000"] assms(3) by simp
  have "1 * (1 / 1024)
      \<le> rnd env (3 * rnd env (of_nat (getsizeof env v + 100))) * rnd env (1 / 1000)"
    using b c by (intro mult_mono) auto
  then have "1 / 1024 \<le> credits env v"
    unfolding credits_def using monoD[OF assms(1), of "1 / 1024"] assms(3) by simp
  then show ?thesis
    by simp
qed

lemma credits_mono:
  assumes "mono (rnd env)" "rnd env 1 = 1" "rnd env (1 / 1024) = 1 / 1024"
    and le: "getsizeof env v1 \<le> getsizeof env v2"
  shows "credits env v1 \<le> credits env v2"
proof -
  have c: "0 \<le> rnd env (1 / 1000)"
    using monoD[OF assms(1), of "1 / 1024" "1 / 1000"] assms(3) by simp
  have "rnd env (of_nat (getsizeof env v1 + 100)) \<le> rnd env (of_nat (getsizeof env v2 + 100))"
    using le by (intro monoD[OF assms(1)]) simp
  then have "rnd env (3 * rnd env (of_nat (getsizeof env v1 + 100)))
      \<le> rnd env (3 * rnd env (of_nat (getsizeof env v2 + 100)))"
    by (intro monoD[OF assms(1)]) simp
  then have "rnd env (3 * rnd env (of_nat (getsizeof env v1 + 100))) * rnd env (1 / 1000)
      \<le> rnd env (3 * rnd env (of_nat (getsizeof env v2 + 100))) * rnd env (1 / 1000)"
    using c by (rule mult_right_mono)
  then show ?thesis
    unfolding credits_def by (rule monoD[OF assms(1)])
qed

text \<open>
  C6: \<open>cost_based_ttl\<close> returns for every value, its seconds are at most one week
  (604800), and a value that is no bigger than another gets a lifetime that is no
  shorter.
\<close>

theorem cost_based_ttl_capped_and_antimonotone:
  assumes "mono (rnd env)" "rnd env 1 = 1" "rnd env (1 / 1024) = 1 / 1024"
  shows "\<exists>t1 d1 t2 d2.
           cost_based_ttl env v1 = Inr (t1, d1) \<and> cost_based_ttl env v2 = Inr (t2, d2) \<and>
           t1 \<le> 604800 \<and> t2 \<le> 604800 \<and>
           (getsizeof env v1 \<le> getsizeof env v2 \<longrightarrow> t2 \<le> t1)"
proof -
  have p1: "0 < credits env v1" and p2: "0 < credits env v2"
    using assms by (auto intro: credits_pos)
  have "min \<lceil>rnd env (2592000 / credits env v2)\<rceil> 604800
          \<le> min \<lceil>rnd env (2592000 / credits env v1)\<rceil> (604800::int)"
    if "getsizeof env v1 \<le> getsizeof env v2"
  proof -
    have "credits env v1 \<le> credits env v2"
      using assms that by (intro credits_mono)
    then have "2592000 / credits env v2 \<le> 2592000 / credits env v1"
      using p1 by (intro divide_left_mono) auto
    then have "rnd env (2592000 / credits env v2) \<le> rnd env (2592000 / credits env v1)"
      by (rule monoD[OF assms(1)])
    then have "\<lceil>rnd env (2592000 / credits env v2)\<rceil> \<le> \<lceil>rnd env (2592000 / credits env v1)\<rceil>"
      by (rule ceiling_mono)
    then show ?thesis
      by simp
  qed
  then show ?thesis
    using p1 p2 by (simp add: cost_based_ttl_unfold)
qed

theorem cost_based_ttl_capped_and_antimonotone_witness:
  "mono (rnd example_env) \<and> rnd example_env 1 = 1 \<and> rnd example_env (1 / 1024) = 1 / 1024 \<and>
   getsizeof example_env ''short'' \<le> getsizeof example_env (replicate 50000 CHR ''x'') \<and>
   (\<exists>t1 d1 t2 d2.
      cost_based_ttl example_env ''short'' = Inr (t1, d1) \<and>
      cost_based_ttl example_env (replicate 50000 CHR ''x'') = Inr (t2, d2) \<and>
      t1 \<le> 604800 \<and> t2 \<le> 604800 \<and> t2 \<le> t1)"
proof -
  have m: "mono (rnd example_env)" "rnd example_env 1 = 1" "rnd example_env (1 / 1024) = 1 / 1024"
    by (simp_all add: example_env_def mono_def)
  have s: "getsizeof example_env ''short'' \<le> getsizeof example_env (replicate 50000 CHR ''x'')"
    by (simp add: example_env_def)
  show ?thesis
    using cost_based_ttl_capped_and_antimonotone
      [OF m, of "''short''" "replicate 50000 CHR ''x''"] m s
    by blast
qed

section \<open>Properties of the subscriptions\<close>

text \<open>
  C9 says \<^verbatim>\<open>_unsubscribe\<close> removes the subscriber from the publisher's set and does not
  raise. The code names an undefined variable: every call raises \<open>NameError\<close> and leaves
  the store as it was.
\<close>

theorem u_unsubscribe_raises_NameError:
  "u_unsubscribe now st publisher subscriber = (st, Inl (NameError ''subsriber''))"
  by (simp add: u_unsubscribe_def lookup_name_def)


section \<open>Properties of the batched write\<close>

lemma for_each_single: "for_each body [x] st acc = body x st acc"
  by (simp split: prod.splits sum.splits)

lemma ndxs_Cons: "map int [0..<Suc m] = 0 # map int [Suc 0..<Suc m]"
  by (simp add: upt_conv_Cons del: upt_Suc)

lemma intent_update_store [simp]: "store (intent_update st r kvs) = store st"
  by (simp add: intent_update_def)

lemma u_modify_page_store:
  "u_modify_page env now st pipe ndx name v = (st', r) \<Longrightarrow> store st' = store st"
  by (auto simp: u_modify_page_def random_key_def Let_def split: sum.splits prod.splits)

lemma u_new_page_store:
  "u_new_page env now st pipe ndx name v k = (st', r) \<Longrightarrow> store st' = store st"
  by (auto simp: u_new_page_def Let_def split: sum.splits prod.splits dest: u_modify_page_store)

lemma u_new_obscure_page_store:
  "u_new_obscure_page env now st pipe ndx name v k = (st', r) \<Longrightarrow> store st' = store st"
  by (auto simp: u_new_obscure_page_def split: sum.splits prod.splits dest: u_new_page_store)

lemma default_key_store: "default_key env st k = (wk, st') \<Longrightarrow> store st' = store st"
  by (auto simp: default_key_def random_key_def split: option.splits)

lemma random_name_store: "random_name env st = (n, st') \<Longrightarrow> store st' = store st"
  by (auto simp: random_name_def random_key_def)

lemma obscure_body_store:
  "obscure_body env now item st acc = (st', r) \<Longrightarrow> store st' = store st"
  by (auto simp: obscure_body_def Let_def
      split: if_splits sum.splits prod.splits option.splits)
    (metis default_key_store random_name_store u_new_obscure_page_store)+

lemma obscure_body_invalid_value:
  "\<not> is_valid_value env v \<Longrightarrow>
   obscure_body env now (ndx, name, v, write_key) st acc = (st, Inl TypeError)"
  by (simp add: obscure_body_def)

text \<open>The loop of the first phase raises as soon as it meets a value that is too big;
  it has sent nothing to the store by then.\<close>

lemma obscure_loop_raises:
  "(ndx, name, v, write_key) \<in> set items \<Longrightarrow> \<not> is_valid_value env v \<Longrightarrow>
   \<exists>st' e. for_each (obscure_body env now) items st acc = (st', Inl e) \<and> store st' = store st"
proof (induction items arbitrary: st acc)
  case Nil
  then show ?case by simp
next
  case (Cons item items)
  obtain st1 r where b: "obscure_body env now item st acc = (st1, r)"
    by (cases "obscure_body env now item st acc")
  then have s1: "store st1 = store st"
    by (rule obscure_body_store)
  show ?case
  proof (cases r)
    case (Inl e)
    then show ?thesis using b s1 by simp
  next
    case (Inr acc')
    have "item \<noteq> (ndx, name, v, write_key)"
      using b Inr Cons.prems(2) by (auto simp: obscure_body_invalid_value)
    then have "(ndx, name, v, write_key) \<in> set items"
      using Cons.prems(1) by auto
    from Cons.IH[OF this Cons.prems(2), of st1 acc'] show ?thesis
      using b Inr s1 by auto
  qed
qed

text \<open>
  C2 says a value over the ceiling is rejected with a record of its own, returned with
  the results of the other inputs. The code builds that record from a string plus a
  type object, which raises: a batch that holds such a value anywhere raises, returns
  nothing for any input, and has sent nothing to the store.
\<close>

theorem set_with_oversized_value_raises:
  assumes "i < length names" "length values = length names" "length write_keys = length names"
    and "\<not> is_valid_value env (values ! i)"
  shows "\<exists>st' e. rediz_set env now st (Some names) (Some values) (Some write_keys) name v write_key
                   = (st', Inl e) \<and> store st' = store st"
proof -
  let ?ndxs = "map int [0..<length names]"
  let ?items = "zip ?ndxs (zip names (zip values write_keys))"
  have ne: "names \<noteq> []" "values \<noteq> []" "write_keys \<noteq> []" "?ndxs \<noteq> []"
    using assms(1-3) by auto
  have "?items ! i = (int i, names ! i, values ! i, write_keys ! i)"
    using assms(1-3) by simp
  moreover have "i < length ?items"
    using assms(1-3) by simp
  ultimately have "(int i, names ! i, values ! i, write_keys ! i) \<in> set ?items"
    by (metis nth_mem)
  from obscure_loop_raises[OF this assms(4), of now st acc0]
  obtain st' e where l: "for_each (obscure_body env now) ?items st acc0 = (st', Inl e)"
    "store st' = store st"
    by blast
  have "u_pipelined_set_obscure env now st ?ndxs names values write_keys = (st', Inl e)"
    using l(1) ne(4) by (simp add: u_pipelined_set_obscure_def)
  then have "u_set env now st names values write_keys = (st', Inl e)"
    by (simp add: u_set_def)
  then have "rediz_set env now st (Some names) (Some values) (Some write_keys) name v write_key
      = (st', Inl e)"
    using ne(1-3) by (simp add: rediz_set_def u_coerce_inputs_def)
  then show ?thesis
    using l(2) by blast
qed

theorem set_with_oversized_value_raises_witness:
  "(0::nat) < length [Some ''a.json'', Some ''b.json''] \<and>
   length [replicate 100000 CHR ''x'', ''v''] = length [Some ''a.json'', Some ''b.json''] \<and>
   length [Some key_A, Some key_B] = length [Some ''a.json'', Some ''b.json''] \<and>
   \<not> is_valid_value example_env ([replicate 100000 CHR ''x'', ''v''] ! 0) \<and>
   (\<exists>st' e. rediz_set example_env 1000 empty_state (Some [Some ''a.json'', Some ''b.json''])
               (Some [replicate 100000 CHR ''x'', ''v'']) (Some [Some key_A, Some key_B])
               None [] None = (st', Inl e) \<and> store st' = store empty_state)"
proof -
  have v: "\<not> is_valid_value example_env ([replicate 100000 CHR ''x'', ''v''] ! 0)"
    by (simp add: is_valid_value_def example_env_def)
  show ?thesis
    using set_with_oversized_value_raises
      [of 0 "[Some ''a.json'', Some ''b.json'']" "[replicate 100000 CHR ''x'', ''v'']"
          "[Some key_A, Some key_B]" example_env 1000 empty_state None "[]" None] v
    by simp
qed

subsection \<open>One input through the three phases\<close>

lemma execute_and_attach_Nil [simp]: "execute_and_attach now pipe [] st = (st, Inr ())"
  by (simp add: execute_and_attach_def)

lemma obscure_single:
  assumes "u_pipelined_set_obscure env now st [0] [name] [v] [k] = (st', Inr (ex, rej, ign, ns, vs, ks))"
  shows "(ign = [] \<and> ns = [] \<and> vs = [] \<and> ks = [] \<and> (ex = [] \<or> rej = [])) \<or>
         (ex = [] \<and> rej = [] \<and> ign = [0] \<and> (\<exists>n. name = Some n \<and> ns = [n]) \<and> vs = [v] \<and> ks = [k]
          \<and> st' = st)"
  using assms
  by (auto simp: u_pipelined_set_obscure_def for_each_single obscure_body_def acc0_def reject_def
      Let_def split: if_splits sum.splits prod.splits option.splits)

lemma new_single:
  assumes "u_pipelined_set_new env now st [0] [n] [v] [k] = (st', Inr (ex, rej, ign, ns, vs, ks))"
  shows "(ign = [] \<and> ns = [] \<and> vs = [] \<and> ks = [] \<and> (ex = [] \<or> rej = [])) \<or>
         (ex = [] \<and> rej = [] \<and> ign = [0] \<and> ns = [n] \<and> vs = [v] \<and> ks = [k])"
  using assms
  by (auto simp: u_pipelined_set_new_def for_each_single new_body_def acc0_def reject_def
      Let_def zip_Cons split: if_splits sum.splits prod.splits option.splits list.splits)

lemma new_empty [simp]:
  "u_pipelined_set_new env now st [] [] [] [] = (st, Inr ([], [], [], [], [], []))"
  by (simp add: u_pipelined_set_new_def acc0_def)

lemma existing_empty [simp]:
  "u_pipelined_set_existing env now st [] [] [] [] = (st, Inr ([], []))"
  by (simp add: u_pipelined_set_existing_def)

lemma existing_single:
  assumes "u_pipelined_set_existing env now st [0] [n] [v] [k] = (st', Inr (ex, rej))"
  shows "ex = [] \<or> rej = []"
  using assms
  by (auto simp: u_pipelined_set_existing_def for_each_single existing_body_def acc0_def reject_def
      Let_def zip_Cons1 split: if_splits sum.splits prod.splits option.splits list.splits)

lemma propagate_Nil [simp]: "u_propagate_to_subscribers now st [] [] = (st, Inr [])"
  by (simp add: u_propagate_to_subscribers_def execute_def)

lemma u_set_single_disjoint:
  assumes "u_set env now st [name] [v] [k] = (st', Inr (executed, rejected))" "rejected \<noteq> []"
  shows "executed = []"
proof -
  from assms(1) obtain st1 e1 r1 i1 n1 v1 k1 where
    1: "u_pipelined_set_obscure env now st [0] [name] [v] [k] = (st1, Inr (e1, r1, i1, n1, v1, k1))"
    by (auto simp: u_set_def split: sum.splits prod.splits)
  with assms(1) obtain st2 e2 r2 i2 n2 v2 k2 where
    2: "u_pipelined_set_new env now st1 i1 n1 v1 k1 = (st2, Inr (e2, r2, i2, n2, v2, k2))"
    by (auto simp: u_set_def split: sum.splits prod.splits)
  with 1 assms(1) obtain st3 e3 r3 where
    3: "u_pipelined_set_existing env now st2 i2 n2 v2 k2 = (st3, Inr (e3, r3))"
    by (auto simp: u_set_def split: sum.splits prod.splits)
  from 1 2 3 assms(1) have ex: "executed = e1 @ e2 @ e3" and rej: "rejected = r1 @ r2 @ r3"
    by (auto simp: u_set_def split: sum.splits prod.splits)
  from obscure_single[OF 1] show ?thesis
  proof
    assume a: "i1 = [] \<and> n1 = [] \<and> v1 = [] \<and> k1 = [] \<and> (e1 = [] \<or> r1 = [])"
    with 2 3 have "e2 = []" "r2 = []" "e3 = []" "r3 = []"
      by auto
    with a ex rej assms(2) show ?thesis by auto
  next
    assume a: "e1 = [] \<and> r1 = [] \<and> i1 = [0] \<and> (\<exists>n. name = Some n \<and> n1 = [n]) \<and> v1 = [v] \<and> k1 = [k] \<and> st1 = st"
    then obtain n where n: "n1 = [n]" by blast
    from 2 a n have "u_pipelined_set_new env now st1 [0] [n] [v] [k] = (st2, Inr (e2, r2, i2, n2, v2, k2))"
      by simp
    from new_single[OF this] show ?thesis
    proof
      assume b: "i2 = [] \<and> n2 = [] \<and> v2 = [] \<and> k2 = [] \<and> (e2 = [] \<or> r2 = [])"
      with 3 have "e3 = []" "r3 = []" by auto
      with a b ex rej assms(2) show ?thesis by auto
    next
      assume b: "e2 = [] \<and> r2 = [] \<and> i2 = [0] \<and> n2 = [n] \<and> v2 = [v] \<and> k2 = [k]"
      with 3 have "u_pipelined_set_existing env now st2 [0] [n] [v] [k] = (st3, Inr (e3, r3))"
        by simp
      from existing_single[OF this] a b ex rej assms(2) show ?thesis by auto
    qed
  qed
qed

lemma u_set_invalid_name:
  assumes "is_valid_value env v" "\<not> is_valid_name n"
  shows "u_set env now st [Some n] [v] [k] =
           (st, Inr ([], [[(''ndx'', PInt 0), (''name'', PStr n), (''error'', PStr ''invalid name'')]]))"
  using assms
  by (simp add: u_set_def u_pipelined_set_obscure_def for_each_single obscure_body_def acc0_def
      reject_def)

text \<open>
  C10: a singular \<^verbatim>\<open>set\<close> whose input ends among the rejected ones has an empty list of
  executed intents, and \<^verbatim>\<open>access[0]\<close> raises \<open>IndexError\<close>; a name that is not valid is
  such an input.
\<close>

theorem singular_set_rejected_raises_IndexError:
  "(u_set env now st [name] [v] [write_key] = (st', Inr (executed, rejected)) \<and> rejected \<noteq> []
      \<longrightarrow> executed = [] \<and>
          rediz_set env now st None None None name v write_key = (st', Inl IndexError))
   \<and> (is_valid_value env v \<and> \<not> is_valid_name n
      \<longrightarrow> rediz_set env now st None None None (Some n) v write_key = (st, Inl IndexError))"
proof (intro conjI impI)
  assume a: "u_set env now st [name] [v] [write_key] = (st', Inr (executed, rejected)) \<and> rejected \<noteq> []"
  then show e: "executed = []"
    using u_set_single_disjoint by blast
  show "rediz_set env now st None None None name v write_key = (st', Inl IndexError)"
    using a e by (simp add: rediz_set_def u_coerce_inputs_def u_coerce_outputs_def)
next
  assume "is_valid_value env v \<and> \<not> is_valid_name n"
  then show "rediz_set env now st None None None (Some n) v write_key = (st, Inl IndexError)"
    by (simp add: rediz_set_def u_coerce_inputs_def u_coerce_outputs_def u_set_invalid_name)
qed

theorem singular_set_rejected_raises_IndexError_witness:
  "is_valid_value example_env ''v'' \<and> \<not> is_valid_name ''not a name'' \<and>
   u_set example_env 1000 empty_state [Some ''not a name''] [''v''] [Some key_A] =
     (empty_state, Inr ([], [[(''ndx'', PInt 0), (''name'', PStr ''not a name''),
                              (''error'', PStr ''invalid name'')]])) \<and>
   rediz_set example_env 1000 empty_state None None None (Some ''not a name'') ''v'' (Some key_A)
     = (empty_state, Inl IndexError)"
proof -
  have v: "is_valid_value example_env ''v''"
    by (simp add: is_valid_value_def example_env_def)
  have n: "\<not> is_valid_name ''not a name''"
    by code_simp
  have u: "u_set example_env 1000 empty_state [Some ''not a name''] [''v''] [Some key_A] =
     (empty_state, Inr ([], [[(''ndx'', PInt 0), (''name'', PStr ''not a name''),
                              (''error'', PStr ''invalid name'')]]))"
    using v n by (rule u_set_invalid_name)
  show ?thesis
    using singular_set_rejected_raises_IndexError
      [of example_env 1000 empty_state "Some ''not a name''" "''v''" "Some key_A" empty_state
          "[]" "[[(''ndx'', PInt 0), (''name'', PStr ''not a name''),
                  (''error'', PStr ''invalid name'')]]" "''not a name''"] v n u
    by simp
qed


subsection \<open>Reading the ledger\<close>

lemma exec_HMGET_store [simp]: "snd (exec_cmd t (HMGET h fs) s) = s"
  by (auto split: option.splits prod.splits rvalue.splits)

lemma state_store_same [simp]: "st\<lparr>store := store st\<rparr> = st"
  by simp

lemma u_write_keys_single:
  assumes "fst (exec_cmd now (HMGET OWNERSHIP [name]) (store st)) = RArray xs"
  shows "u_write_keys now st [name] = (st, Inr (Some xs))"
proof -
  have "exec_cmd now (HMGET OWNERSHIP [name]) (store st) = (RArray xs, store st)"
    using assms exec_HMGET_store[of now OWNERSHIP "[name]" "store st"]
    by (metis prod.collapse)
  then show ?thesis
    by (simp add: u_write_keys_def call_def)
qed

subsection \<open>\<open>delete\<close>\<close>

text \<open>
  C4 says a \<^verbatim>\<open>delete\<close> with a key that does not match, or of a name without a ledger
  entry, does nothing and raises nothing. In the code the list of authorised names is
  then empty and \<^verbatim>\<open>self._delete(*[])\<close> raises \<open>TypeError\<close> (the store is untouched); and for
  a name without an entry and a call without a key, \<open>None == None\<close> authorises the
  deletion, which runs.
\<close>

theorem delete_unauthorized_raises_TypeError:
  "(fst (exec_cmd now (HMGET OWNERSHIP [name]) (store st)) = RArray [official] \<and>
    write_key \<noteq> official
      \<longrightarrow> rediz_delete now st name write_key None None = (st, Inl TypeError))
   \<and> (fst (exec_cmd now (HMGET OWNERSHIP [name]) (store st)) = RArray [None]
      \<longrightarrow> rediz_delete now st name None None None = u_delete now st [name])"
  by (auto simp: rediz_delete_def u_are_valid_write_keys_def u_write_keys_single u_delete_star_def)

theorem delete_unauthorized_raises_TypeError_witness:
  "fst (exec_cmd 1001 (HMGET OWNERSHIP [''a.json'']) (store owned_state)) = RArray [Some key_A] \<and>
   Some key_B \<noteq> Some key_A \<and>
   rediz_delete 1001 owned_state ''a.json'' (Some key_B) None None = (owned_state, Inl TypeError) \<and>
   fst (exec_cmd 1001 (HMGET OWNERSHIP [''p.json'']) (store owned_state)) = RArray [None] \<and>
   rediz_delete 1001 owned_state ''p.json'' None None None = u_delete 1001 owned_state [''p.json'']"
proof -
  have a: "fst (exec_cmd 1001 (HMGET OWNERSHIP [''a.json'']) (store owned_state))
             = RArray [Some key_A]"
    by (simp add: owned_state_def empty_state_def live_entry_def OWNERSHIP_def NAMES_def
        obscurity_def SUBSCRIBERS_def)
  have p: "fst (exec_cmd 1001 (HMGET OWNERSHIP [''p.json'']) (store owned_state)) = RArray [None]"
    by (simp add: owned_state_def empty_state_def live_entry_def OWNERSHIP_def NAMES_def
        obscurity_def SUBSCRIBERS_def)
  have k: "Some key_B \<noteq> Some key_A"
    by (simp add: key_A_def key_B_def)
  show ?thesis
    using delete_unauthorized_raises_TypeError
        [of 1001 "''a.json''" owned_state "Some key_A" "Some key_B"]
      delete_unauthorized_raises_TypeError
        [of 1001 "''p.json''" owned_state None None] a p k
    by simp
qed

subsection \<open>The third phase\<close>

lemma u_modify_page_unfold:
  assumes "cost_based_ttl env v = Inr (ttl, ttl_days)"
  shows "u_modify_page env now st pipe ndx name v =
     (intent_update (st\<lparr>drawn := Suc (drawn st)\<rparr>) Default_intent
        [(''ndx'', PInt ndx), (''name'', PStr name), (''value'', PStr v),
         (''ttl_days'', PFloat ttl_days), (''new'', PBool False),
         (''obscure'', PBool False),
         (''copy'', PStr (random_key_at env (drawn st) @ '':'' @ name))],
      Inr (pipe @ page_cmds env now (random_key_at env (drawn st)) name v ttl, Default_intent))"
  using assms by (simp add: u_modify_page_def page_cmds_def random_key_def Let_def)

lemma attach_results_store [simp]: "store (attach_results st executed groups) = store st"
proof -
  have "store (foldl (\<lambda>st' (intent, res). intent_update st' intent [(''result'', PTuple res)])
                 st xs) = store st" for xs
    by (induction xs arbitrary: st) (auto simp: split_beta)
  then show ?thesis
    by (simp add: attach_results_def)
qed

lemma last4_length: "length (last4 k) \<le> 4"
  by (simp add: last4_def)

lemma example_ttl: "cost_based_ttl example_env ''v2'' = Inr (604800, 7)"
  by code_simp



section \<open>Properties of the promise executor\<close>

subsection \<open>Running commands\<close>

lemma run_append:
  "run t (a @ b) s =
     (fst (run t a s) @ fst (run t b (snd (run t a s))), snd (run t b (snd (run t a s))))"
  by (induction a arbitrary: s) (auto simp: split_beta)


lemma exec_SMEMBERS_store [simp]: "snd (exec_cmd t (SMEMBERS k) s) = s"
  by (auto split: option.splits prod.splits rvalue.splits)





subsection \<open>Parsing the members\<close>





subsection \<open>Splitting a member\<close>


















section \<open>Properties of the fan-out\<close>

subsection \<open>Keys a pipeline leaves alone\<close>








subsection \<open>Dictionaries\<close>


lemma heap_intent_update [simp]:
  "heap (intent_update st r kvs) r = dict_update (heap st r) kvs"
  by (simp add: intent_update_def)

lemma drawn_intent_update [simp]: "drawn (intent_update st r kvs) = drawn st"
  by (simp add: intent_update_def)



subsection \<open>A singular \<open>set\<close> of a valid name\<close>









subsection \<open>Mailboxes\<close>


lemma live_entry_upd_other: "k' \<noteq> k \<Longrightarrow> live_entry t (s(k' := x)) k = live_entry t s k"
  by (simp add: live_entry_def)








subsection \<open>From the write to the mailbox\<close>





subsection \<open>When a singular \<open>set\<close> succeeds\<close>





subsection \<open>The two cases on a concrete store\<close>










section \<open>Properties of the write to an existing name\<close>

lemma u_write_keys_reply:
  assumes "fst (exec_cmd now (HMGET OWNERSHIP names) (store st)) = RArray xs"
  shows "u_write_keys now st names = (st, Inr (Some xs))"
proof -
  have ne: "names \<noteq> []"
    using assms by auto
  have "exec_cmd now (HMGET OWNERSHIP names) (store st) = (RArray xs, store st)"
    using assms exec_HMGET_store[of now OWNERSHIP names "store st"]
    by (metis prod.collapse)
  then show ?thesis
    using ne by (simp add: u_write_keys_def call_def del: exec_cmd.simps)
qed

lemma execute_and_attach_store:
  assumes "execute_and_attach now pipe executed st = (st', r)" "executed \<noteq> []"
  shows "store st' = snd (run now pipe (store st))"
    and "r = (if list_ex (\<lambda>r. r = RError) (fst (run now pipe (store st)))
              then Inl ResponseError else Inr ())"
  using assms
  by (auto simp: execute_and_attach_def execute_def pipe_results_grouper_def
      split: prod.splits if_splits)

lemma existing_pages_none:
  "filter key_matches items = [] \<Longrightarrow> existing_pages env now d items = []"
  by (induction items arbitrary: d) (auto simp: key_matches_def split: if_splits)

text \<open>The loop of \<^verbatim>\<open>_pipelined_set_existing\<close> over inputs whose names the ledger holds.\<close>

lemma existing_loop:
  assumes "\<forall>(ndx, name, v, write_key, official)\<in>set items.
             official \<noteq> None \<and> (\<exists>ttl days. cost_based_ttl env v = Inr (ttl, days))"
  shows "\<exists>st1. for_each (existing_body env now) items st acc =
           (st1, Inr (acc\<lparr>acc_pipe := acc_pipe acc @ existing_pages env now (drawn st) items,
                        acc_executed := acc_executed acc
                           @ map (\<lambda>i. Default_intent) (filter key_matches items),
                        acc_rejected := acc_rejected acc
                           @ map ownership_error (filter (\<lambda>i. \<not> key_matches i) items)\<rparr>))
         \<and> store st1 = store st"
  using assms
proof (induction items arbitrary: st acc)
  case Nil
  then show ?case by simp
next
  case (Cons item items)
  obtain ndx name v write_key official where item: "item = (ndx, name, v, write_key, official)"
    by (cases item) auto
  from Cons.prems item obtain k ttl days where off: "official = Some k"
    and ttl: "cost_based_ttl env v = Inr (ttl, days)"
    by auto
  from Cons.prems have rest: "\<forall>(ndx, name, v, write_key, official)\<in>set items.
             official \<noteq> None \<and> (\<exists>ttl days. cost_based_ttl env v = Inr (ttl, days))"
    by simp
  show ?case
  proof (cases "write_key = official")
    case True
    let ?st' = "intent_update
                  (intent_update (st\<lparr>drawn := Suc (drawn st)\<rparr>) Default_intent
                     [(''ndx'', PInt ndx), (''name'', PStr name), (''value'', PStr v),
                      (''ttl_days'', PFloat days), (''new'', PBool False),
                      (''obscure'', PBool False),
                      (''copy'', PStr (random_key_at env (drawn st) @ '':'' @ name))])
                  Default_intent [(''write_key'', py_opt write_key)]"
    let ?acc' = "acc\<lparr>acc_pipe := acc_pipe acc @ page_cmds env now (random_key_at env (drawn st)) name v ttl,
                     acc_executed := acc_executed acc @ [Default_intent]\<rparr>"
    have body: "existing_body env now item st acc = (?st', Inr ?acc')"
      using True by (simp add: existing_body_def item u_modify_page_unfold[OF ttl])
    from Cons.IH[OF rest, of ?st' ?acc'] obtain st1 where
      ih: "for_each (existing_body env now) items ?st' ?acc' =
           (st1, Inr (?acc'\<lparr>acc_pipe := acc_pipe ?acc' @ existing_pages env now (drawn ?st') items,
                        acc_executed := acc_executed ?acc'
                           @ map (\<lambda>i. Default_intent) (filter key_matches items),
                        acc_rejected := acc_rejected ?acc'
                           @ map ownership_error (filter (\<lambda>i. \<not> key_matches i) items)\<rparr>))"
      and s1: "store st1 = store ?st'"
      by blast
    have step: "for_each (existing_body env now) (item # items) st acc
        = for_each (existing_body env now) items ?st' ?acc'"
      by (simp add: body)
    have km: "key_matches (ndx, name, v, official, official)"
      by (simp add: key_matches_def)
    show ?thesis
      unfolding step ih using s1 True by (simp add: item km ttl)
  next
    case False
    let ?acc' = "reject acc (ownership_error item)"
    have body: "existing_body env now item st acc = (st, Inr ?acc')"
      using False off by (simp add: existing_body_def item ownership_error_def last4_def)
    from Cons.IH[OF rest, of st ?acc'] obtain st1 where
      ih: "for_each (existing_body env now) items st ?acc' =
           (st1, Inr (?acc'\<lparr>acc_pipe := acc_pipe ?acc' @ existing_pages env now (drawn st) items,
                        acc_executed := acc_executed ?acc'
                           @ map (\<lambda>i. Default_intent) (filter key_matches items),
                        acc_rejected := acc_rejected ?acc'
                           @ map ownership_error (filter (\<lambda>i. \<not> key_matches i) items)\<rparr>))"
      and s1: "store st1 = store st"
      by blast
    have step: "for_each (existing_body env now) (item # items) st acc
        = for_each (existing_body env now) items st ?acc'"
      by (simp add: body)
    have km: "\<not> key_matches (ndx, name, v, write_key, official)"
      using False by (simp add: key_matches_def)
    show ?thesis
      unfolding step ih using s1 False by (simp add: item km reject_def)
  qed
qed

text \<open>
  C1: \<^verbatim>\<open>_pipelined_set_existing\<close> on a batch of names that the ledger holds. The inputs
  whose supplied key is the recorded one, and no others, are executed: the pipeline that
  is sent is made of their pages, in order, and nothing else. Every other input is
  rejected with a record that holds, of the official key, its last four characters, and
  queues nothing. The call raises only when the store answers a command of the pipeline
  with an error.
\<close>

theorem set_existing_accepted_iff_key_matches:
  assumes ledger: "fst (exec_cmd now (HMGET OWNERSHIP names) (store st)) = RArray officials"
    and held: "\<forall>official\<in>set officials. official \<noteq> None"
    and ttl: "\<forall>v\<in>set values. \<exists>ttl days. cost_based_ttl env v = Inr (ttl, days)"
    and items: "items = zip ndxs (zip names (zip values (zip write_keys officials)))"
    and pipe: "pipe = existing_pages env now (drawn st) items"
  shows "store (fst (u_pipelined_set_existing env now st ndxs names values write_keys))
           = snd (run now pipe (store st))
       \<and> snd (u_pipelined_set_existing env now st ndxs names values write_keys)
           = (if list_ex (\<lambda>r. r = RError) (fst (run now pipe (store st)))
              then Inl ResponseError
              else Inr (map (\<lambda>i. Default_intent) (filter key_matches items),
                        map ownership_error (filter (\<lambda>i. \<not> key_matches i) items)))"
proof (cases "ndxs = []")
  case True
  then show ?thesis
    by (simp add: u_pipelined_set_existing_def items pipe)
next
  case False
  have all: "\<forall>(ndx, name, v, write_key, official)\<in>set items.
             official \<noteq> None \<and> (\<exists>ttl days. cost_based_ttl env v = Inr (ttl, days))"
  proof (intro ballI, clarify)
    fix ndx name v write_key official
    assume "(ndx, name, v, write_key, official) \<in> set items"
    then have "(name, v, write_key, official) \<in> set (zip names (zip values (zip write_keys officials)))"
      unfolding items by (rule set_zip_rightD)
    then have "(v, write_key, official) \<in> set (zip values (zip write_keys officials))"
      by (rule set_zip_rightD)
    then have "v \<in> set values" "(write_key, official) \<in> set (zip write_keys officials)"
      by (auto dest: set_zip_leftD set_zip_rightD)
    then have "v \<in> set values" "official \<in> set officials"
      by (auto dest: set_zip_rightD)
    with held ttl show "official \<noteq> None \<and> (\<exists>ttl days. cost_based_ttl env v = Inr (ttl, days))"
      by blast
  qed
  from existing_loop[OF all, of now st acc0] obtain st1 where
    loop: "for_each (existing_body env now) items st acc0 =
           (st1, Inr (acc0\<lparr>acc_pipe := acc_pipe acc0 @ pipe,
                        acc_executed := acc_executed acc0
                           @ map (\<lambda>i. Default_intent) (filter key_matches items),
                        acc_rejected := acc_rejected acc0
                           @ map ownership_error (filter (\<lambda>i. \<not> key_matches i) items)\<rparr>))"
    and s1: "store st1 = store st"
    unfolding pipe by blast
  let ?ex = "map (\<lambda>i. Default_intent) (filter key_matches items)"
  let ?rej = "map ownership_error (filter (\<lambda>i. \<not> key_matches i) items)"
  obtain st2 r2 where ea: "execute_and_attach now pipe ?ex st1 = (st2, r2)"
    by (cases "execute_and_attach now pipe ?ex st1")
  have res: "u_pipelined_set_existing env now st ndxs names values write_keys =
      (case r2 of Inl e \<Rightarrow> (st2, Inl e) | Inr u \<Rightarrow> (st2, Inr (?ex, ?rej)))"
    using False loop ea
    by (simp add: u_pipelined_set_existing_def u_write_keys_reply[OF ledger] items[symmetric]
        acc0_def split: sum.splits)
  show ?thesis
  proof (cases "?ex = []")
    case True
    then have "pipe = []"
      unfolding pipe by (intro existing_pages_none) simp
    moreover from True ea have "st2 = st1" "r2 = Inr ()"
      by (simp_all add: execute_and_attach_def)
    ultimately show ?thesis
      using res s1 by simp
  next
    case ne: False
    from execute_and_attach_store[OF ea ne] s1 have
      "store st2 = snd (run now pipe (store st))"
      "r2 = (if list_ex (\<lambda>r. r = RError) (fst (run now pipe (store st)))
             then Inl ResponseError else Inr ())"
      by simp_all
    then show ?thesis
      using res by simp
  qed
qed

theorem set_existing_accepted_iff_key_matches_witness:
  "fst (exec_cmd 1001 (HMGET OWNERSHIP [''a.json'', ''a.json'']) (store owned_state))
     = RArray [Some key_A, Some key_A] \<and>
   list_all (\<lambda>official. official \<noteq> None) [Some key_A, Some key_A] \<and>
   list_all (\<lambda>v. \<exists>ttl days. cost_based_ttl example_env v = Inr (ttl, days)) [''v2'', ''v2''] \<and>
   store (fst (u_pipelined_set_existing example_env 1001 owned_state [0, 1]
                 [''a.json'', ''a.json''] [''v2'', ''v2''] [Some key_B, Some key_A]))
     = snd (run 1001 (page_cmds example_env 1001 (random_key_at example_env 0) ''a.json'' ''v2'' 604800)
              (store owned_state)) \<and>
   snd (u_pipelined_set_existing example_env 1001 owned_state [0, 1]
          [''a.json'', ''a.json''] [''v2'', ''v2''] [Some key_B, Some key_A])
     = (if list_ex (\<lambda>r. r = RError)
             (fst (run 1001 (page_cmds example_env 1001 (random_key_at example_env 0)
                               ''a.json'' ''v2'' 604800) (store owned_state)))
        then Inl ResponseError
        else Inr ([Default_intent],
                  [[(''name'', PStr ''a.json''), (''value'', PStr ''v2''),
                    (''write_key'', PStr key_B),
                    (''official_write_key_ends_in'', PStr ''aaaa''),
                    (''error'', PStr ''write_key does not match page_key on record'')]]))"
proof -
  have a: "fst (exec_cmd 1001 (HMGET OWNERSHIP [''a.json'', ''a.json'']) (store owned_state))
             = RArray [Some key_A, Some key_A]"
    by (simp add: owned_state_def empty_state_def live_entry_def OWNERSHIP_def NAMES_def
        obscurity_def SUBSCRIBERS_def)
  have h: "\<forall>official\<in>set [Some key_A, Some key_A]. official \<noteq> None"
    by simp
  have t: "\<forall>v\<in>set [''v2'', ''v2'']. \<exists>ttl days. cost_based_ttl example_env v = Inr (ttl, days)"
    using example_ttl by simp
  have k: "key_B \<noteq> key_A"
    by (simp add: key_A_def key_B_def)
  have l: "drop (length key_A - 4) key_A = ''aaaa''"
    by code_simp
  have d: "drawn owned_state = 0"
    by (simp add: owned_state_def empty_state_def)
  have i: "zip [0, 1] (zip [''a.json'', ''a.json''] (zip [''v2'', ''v2'']
             (zip [Some key_B, Some key_A] [Some key_A, Some key_A])))
      = [(0, ''a.json'', ''v2'', Some key_B, Some key_A), (1, ''a.json'', ''v2'', Some key_A, Some key_A)]"
    by simp
  have p: "existing_pages example_env 1001 (drawn owned_state)
             [(0, ''a.json'', ''v2'', Some key_B, Some key_A), (1, ''a.json'', ''v2'', Some key_A, Some key_A)]
      = page_cmds example_env 1001 (random_key_at example_env 0) ''a.json'' ''v2'' 604800"
    using k(1) by (simp add: d example_ttl)
  show ?thesis
    using set_existing_accepted_iff_key_matches
        [OF a h t i[symmetric] p[symmetric]] a h t k l
    by (simp add: key_matches_def ownership_error_def py_opt_def)
qed


end
